theory Spec2Isabelle
  imports Main "HOL-Library.Sublist"
begin

section \<open>The openAndWait browser command\<close>

text \<open>
  A shallow embedding of \<^verbatim>\<open>src/browser/commands/openAndWait.ts\<close>. The command
  navigates a browser session to a URI and settles one promise from the events of a
  \<^verbatim>\<open>PageLoader\<close>. The page loader, the session and the network mock are
  collaborators outside this file: the events they emit are an input of the model (a list,
  in the order of delivery), and so is the outcome of the navigation primitive.
\<close>

subsection \<open>Strings and numbers of the host language\<close>

text \<open>\<^verbatim>\<open>String.prototype.includes\<close>: the argument occurs as a contiguous substring.\<close>

definition includes_str :: "string \<Rightarrow> string \<Rightarrow> bool" where
  "includes_str str search = sublist search str"

text \<open>\<^verbatim>\<open>String.prototype.endsWith\<close>.\<close>

definition endsWith :: "string \<Rightarrow> string \<Rightarrow> bool" where
  "endsWith str search = suffix search str"

text \<open>
  The decimal rendering of a status code inside a template literal. Status codes are
  natural numbers here.
\<close>

definition digit :: "nat \<Rightarrow> char" where
  "digit d = ''0123456789'' ! d"

fun string_of_nat :: "nat \<Rightarrow> string" where
  "string_of_nat n =
     (if n < 10 then [digit n] else string_of_nat (n div 10) @ [digit (n mod 10)])"

declare string_of_nat.simps [simp del]

subsection \<open>Data\<close>

text \<open>
  \<^verbatim>\<open>Matches\<close> of webdriverio, restricted to the fields the command reads. The
  \<^verbatim>\<open>url\<close> is a string by its declared type, so \<^verbatim>\<open>_.isString(match.url)\<close>
  holds. \<^verbatim>\<open>headers\<close> may be undefined (\<open>None\<close>), and so may any header of it.
\<close>

record matches =
  url :: string
  headers :: "(string \<rightharpoonup> string) option"
  statusCode :: nat

text \<open>
  A \<^verbatim>\<open>RegExp\<close> object. It is mutable: a regular expression with the \<^verbatim>\<open>g\<close>
  or the \<^verbatim>\<open>y\<close> flag keeps in \<^verbatim>\<open>lastIndex\<close> where its next
  \<^verbatim>\<open>exec\<close> starts. The \<open>matcher\<close> stands for the compiled expression: for an
  input and a start index within it, the search that \<^verbatim>\<open>exec\<close> makes from that
  index on (at that index only, for a sticky expression), giving the end index and the
  match array of the match found, or \<open>None\<close>.
\<close>

record regexp =
  matcher :: "string \<Rightarrow> nat \<Rightarrow> (nat \<times> string list) option"
  global :: bool
  sticky :: bool
  lastIndex :: nat

text \<open>
  An element of \<^verbatim>\<open>Array<RegExp | string>\<close>. A regular expression is a reference
  to its object, so that one object can occur in several places; the objects live in a
  store that the handlers read and update.
\<close>

datatype pattern = Literal string | RegExp nat

datatype automationProtocol = webdriver | devtools

text \<open>\<^verbatim>\<open>browser.config.openAndWaitOpts\<close>, the session-level defaults.\<close>

record openAndWaitOpts =
  cfg_timeout :: "nat option"
  cfg_waitNetworkIdle :: bool
  cfg_waitNetworkIdleTimeout :: nat
  cfg_failOnNetworkError :: bool
  cfg_ignoreNetworkErrorsPatterns :: "pattern list"

text \<open>\<^verbatim>\<open>browser.config\<close>; \<open>browserName\<close> is \<^verbatim>\<open>desiredCapabilities.browserName\<close>.\<close>

record config =
  browserName :: string
  automationProtocol :: automationProtocol
  pageLoadTimeout :: nat
  openAndWaitOpts :: openAndWaitOpts

text \<open>\<^verbatim>\<open>selector?: string | string[]\<close>.\<close>

datatype selector = Single string | Several "string list"

text \<open>
  \<^verbatim>\<open>WaitOpts\<close>, the caller's options: \<open>None\<close> is an absent (undefined) property.
  The predicate runs in the page; the command only tests whether it is there, so its
  type is a parameter.
\<close>

record 'p waitOpts =
  selector :: "selector option"
  predicate :: "'p option"
  waitNetworkIdle :: "bool option"
  waitNetworkIdleTimeout :: "nat option"
  failOnNetworkError :: "bool option"
  shouldThrowError :: "(matches \<Rightarrow> bool) option"
  ignoreNetworkErrorsPatterns :: "pattern list option"
  timeout :: "nat option"

text \<open>The options object handed to \<^verbatim>\<open>new PageLoader(session, {...})\<close>.\<close>

record 'p pageLoaderOpts =
  pl_selectors :: "string list"
  pl_predicate :: "'p option"
  pl_timeout :: nat
  pl_waitNetworkIdle :: bool
  pl_waitNetworkIdleTimeout :: nat

text \<open>The state of the returned promise.\<close>

datatype settled = Pending | Resolved | Rejected string

text \<open>
  The three closure variables of \<^verbatim>\<open>openAndWait\<close>, its promise, and the store of
  the regular expression objects that the patterns refer to.
\<close>

record state =
  selectorsResolved :: bool
  predicateResolved :: bool
  networkResolved :: bool
  promise :: settled
  regexps :: "nat \<Rightarrow> regexp"

text \<open>
  What the page loader delivers to the handlers registered with \<^verbatim>\<open>on\<close>; an error
  event carries \<^verbatim>\<open>err.message\<close>. \<open>LoadDone\<close> is the fulfilment of
  \<^verbatim>\<open>pageLoader.load(goToPage)\<close>, which runs \<^verbatim>\<open>checkLoaded\<close>;
  \<open>LoadFailed\<close> is its rejection, which no handler receives.
\<close>

datatype event =
    PageLoadError string
  | SelectorsError string
  | PredicateError string
  | NetworkError matches
  | SelectorsExist
  | PredicateResolved
  | NetworkResolved
  | LoadDone
  | LoadFailed string

text \<open>The outcome of \<^verbatim>\<open>session.url(uri)\<close>: fulfilled, rejected with a message, or not settled.\<close>

datatype navigation = NavDone | NavFailed string | NavPending

text \<open>
  What one call of \<^verbatim>\<open>openAndWait\<close> sets up: either the bare navigation of the
  blank-page branch, or a page loader with its options and the initial closure state.
\<close>

datatype 'p invocation = Navigate string | Watch "'p pageLoaderOpts" state

subsection \<open>The classification of network matches\<close>

definition emptyPageUrl :: string where
  "emptyPageUrl = ''about:blank''"

text \<open>
  The table \<^verbatim>\<open>is\<close>. With optional chaining, \<^verbatim>\<open>is.image\<close> and
  \<^verbatim>\<open>is.stylesheet\<close> are undefined (\<open>None\<close>) when the headers or the
  \<^verbatim>\<open>Accept\<close> header are missing.
\<close>

definition is_image :: "matches \<Rightarrow> bool option" where
  "is_image match =
     (case headers match of None \<Rightarrow> None
      | Some h \<Rightarrow> (case h ''Accept'' of None \<Rightarrow> None | Some a \<Rightarrow> Some (includes_str a ''image'')))"

definition is_stylesheet :: "matches \<Rightarrow> bool option" where
  "is_stylesheet match =
     (case headers match of None \<Rightarrow> None
      | Some h \<Rightarrow> (case h ''Accept'' of None \<Rightarrow> None | Some a \<Rightarrow> Some (includes_str a ''text/css'')))"

definition is_font :: "matches \<Rightarrow> bool" where
  "is_font match = list_ex (\<lambda>ext. endsWith (url match) ext) [''.ttf'', ''.woff'', ''.woff2'']"

definition is_favicon :: "matches \<Rightarrow> bool" where
  "is_favicon match = endsWith (url match) ''/favicon.ico''"

text \<open>Truthiness of a value that is a boolean or undefined.\<close>

definition truthy :: "bool option \<Rightarrow> bool" where
  "truthy v = (case v of None \<Rightarrow> False | Some b \<Rightarrow> b)"

text \<open>
  \<^verbatim>\<open>a || b || c\<close> yields the first truthy operand, else the last one; the last
  operand is a boolean, so the result is one.
\<close>

definition shouldThrowErrorDefault :: "matches \<Rightarrow> bool" where
  "shouldThrowErrorDefault match =
     (if is_favicon match then False
      else if truthy (is_image match) then True
      else if truthy (is_stylesheet match) then True
      else is_font match)"

text \<open>
  \<^verbatim>\<open>RegExp.prototype.exec\<close>: the match array or \<^verbatim>\<open>null\<close> (\<open>None\<close>), and
  the object afterwards. Without the \<^verbatim>\<open>g\<close> and \<^verbatim>\<open>y\<close> flags the search
  starts at 0 and \<^verbatim>\<open>lastIndex\<close> is left alone. With one of them it starts at
  \<^verbatim>\<open>lastIndex\<close>, which becomes the end of the match, or 0 when there is none or
  when it lies beyond the input.
\<close>

definition exec :: "regexp \<Rightarrow> string \<Rightarrow> string list option \<times> regexp" where
  "exec re str =
     (let stateful = (global re \<or> sticky re);
          start = (if stateful then lastIndex re else 0)
      in if length str < start then (None, if stateful then re\<lparr>lastIndex := 0\<rparr> else re)
         else
           (case matcher re str start of
              None \<Rightarrow> (None, if stateful then re\<lparr>lastIndex := 0\<rparr> else re)
            | Some (e, arr) \<Rightarrow> (Some arr, if stateful then re\<lparr>lastIndex := e\<rparr> else re)))"

text \<open>
  The callback of \<^verbatim>\<open>patterns.some\<close>: \<^verbatim>\<open>str.includes(pattern)\<close> for a
  string, \<^verbatim>\<open>pattern.exec(str)\<close> for a regular expression, whose object is updated
  in the store; a match array is truthy, \<^verbatim>\<open>null\<close> is not.
\<close>

definition matchPattern ::
  "(nat \<Rightarrow> regexp) \<Rightarrow> string \<Rightarrow> pattern \<Rightarrow> bool \<times> (nat \<Rightarrow> regexp)" where
  "matchPattern h str p =
     (case p of
        Literal s \<Rightarrow> (includes_str str s, h)
      | RegExp r \<Rightarrow> (case exec (h r) str of (res, re) \<Rightarrow> (res \<noteq> None, h(r := re))))"

text \<open>
  \<^verbatim>\<open>Array.prototype.some\<close> with that callback: the patterns are tried in order and
  the first truthy result ends the iteration, the later patterns are not executed.
\<close>

fun some_pattern ::
  "(nat \<Rightarrow> regexp) \<Rightarrow> pattern list \<Rightarrow> string \<Rightarrow> bool \<times> (nat \<Rightarrow> regexp)" where
  "some_pattern h [] str = (False, h)"
| "some_pattern h (p # ps) str =
     (case matchPattern h str p of
        (b, h') \<Rightarrow> if b then (True, h') else some_pattern h' ps str)"

text \<open>\<^verbatim>\<open>isMatchPatterns(patterns = [], str)\<close>, with the store before and after.\<close>

definition isMatchPatterns ::
  "(nat \<Rightarrow> regexp) \<Rightarrow> pattern list option \<Rightarrow> string \<Rightarrow> bool \<times> (nat \<Rightarrow> regexp)" where
  "isMatchPatterns h patterns str =
     some_pattern h (case patterns of None \<Rightarrow> [] | Some ps \<Rightarrow> ps) str"

subsection \<open>The options of one call\<close>

definition isChrome :: "config \<Rightarrow> bool" where
  "isChrome cfg = (browserName cfg = ''chrome'')"

definition isCDP :: "config \<Rightarrow> bool" where
  "isCDP cfg = (automationProtocol cfg = devtools)"

text \<open>
  The destructured parameters with their defaults: a default applies exactly when the
  caller's property is undefined. The \<^verbatim>\<open>?.\<close> on \<^verbatim>\<open>openAndWaitOpts\<close>
  guards nothing under the declared type of the configuration, where the object is there.
\<close>

definition selector_arg :: "'p waitOpts \<Rightarrow> selector" where
  "selector_arg opts = (case selector opts of None \<Rightarrow> Several [] | Some sel \<Rightarrow> sel)"

definition waitNetworkIdle_arg :: "config \<Rightarrow> 'p waitOpts \<Rightarrow> bool" where
  "waitNetworkIdle_arg cfg opts =
     (case waitNetworkIdle opts of None \<Rightarrow> cfg_waitNetworkIdle (openAndWaitOpts cfg) | Some b \<Rightarrow> b)"

definition waitNetworkIdleTimeout_arg :: "config \<Rightarrow> 'p waitOpts \<Rightarrow> nat" where
  "waitNetworkIdleTimeout_arg cfg opts =
     (case waitNetworkIdleTimeout opts of
        None \<Rightarrow> cfg_waitNetworkIdleTimeout (openAndWaitOpts cfg) | Some t \<Rightarrow> t)"

definition failOnNetworkError_arg :: "config \<Rightarrow> 'p waitOpts \<Rightarrow> bool" where
  "failOnNetworkError_arg cfg opts =
     (case failOnNetworkError opts of
        None \<Rightarrow> cfg_failOnNetworkError (openAndWaitOpts cfg) | Some b \<Rightarrow> b)"

definition shouldThrowError_arg :: "'p waitOpts \<Rightarrow> matches \<Rightarrow> bool" where
  "shouldThrowError_arg opts =
     (case shouldThrowError opts of None \<Rightarrow> shouldThrowErrorDefault | Some f \<Rightarrow> f)"

definition ignoreNetworkErrorsPatterns_arg :: "config \<Rightarrow> 'p waitOpts \<Rightarrow> pattern list option" where
  "ignoreNetworkErrorsPatterns_arg cfg opts =
     (case ignoreNetworkErrorsPatterns opts of
        None \<Rightarrow> Some (cfg_ignoreNetworkErrorsPatterns (openAndWaitOpts cfg))
      | Some ps \<Rightarrow> Some ps)"

text \<open>
  \<^verbatim>\<open>timeout = openAndWaitOpts?.timeout || config?.pageLoadTimeout\<close>: an undefined or
  zero session timeout is falsy and gives way to the page load timeout.
\<close>

definition timeout_arg :: "config \<Rightarrow> 'p waitOpts \<Rightarrow> nat" where
  "timeout_arg cfg opts =
     (case timeout opts of
        Some t \<Rightarrow> t
      | None \<Rightarrow>
          (case cfg_timeout (openAndWaitOpts cfg) of
             None \<Rightarrow> pageLoadTimeout cfg
           | Some t \<Rightarrow> if t = 0 then pageLoadTimeout cfg else t))"

text \<open>
  \<^verbatim>\<open>waitNetworkIdle &&= isChrome || isCDP\<close>: the variable is reassigned only when
  it is truthy.
\<close>

definition waitNetworkIdle_eff :: "config \<Rightarrow> 'p waitOpts \<Rightarrow> bool" where
  "waitNetworkIdle_eff cfg opts =
     (if waitNetworkIdle_arg cfg opts then isChrome cfg \<or> isCDP cfg
      else waitNetworkIdle_arg cfg opts)"

text \<open>\<^verbatim>\<open>typeof selector === "string" ? [selector] : selector\<close>.\<close>

definition selectors :: "'p waitOpts \<Rightarrow> string list" where
  "selectors opts = (case selector_arg opts of Single s \<Rightarrow> [s] | Several ss \<Rightarrow> ss)"

subsection \<open>The promise and the handlers\<close>

text \<open>
  \<^verbatim>\<open>resolve\<close> and \<^verbatim>\<open>reject\<close> of a promise act on a pending promise only.
\<close>

definition resolve :: "state \<Rightarrow> state" where
  "resolve s = (if promise s = Pending then s\<lparr>promise := Resolved\<rparr> else s)"

definition reject :: "state \<Rightarrow> string \<Rightarrow> state" where
  "reject s msg = (if promise s = Pending then s\<lparr>promise := Rejected msg\<rparr> else s)"

definition handleError :: "state \<Rightarrow> string \<Rightarrow> state" where
  "handleError s err = reject s (''url: '' @ err)"

definition checkLoaded :: "state \<Rightarrow> state" where
  "checkLoaded s =
     (if selectorsResolved s \<and> predicateResolved s \<and> networkResolved s then resolve s else s)"

definition networkErrorMessage :: "matches \<Rightarrow> string" where
  "networkErrorMessage match =
     ''url: couldn't get content from '' @ url match @ '': '' @ string_of_nat (statusCode match)"

text \<open>The handler of \<^verbatim>\<open>"networkError"\<close>.\<close>

definition onNetworkError :: "config \<Rightarrow> 'p waitOpts \<Rightarrow> state \<Rightarrow> matches \<Rightarrow> state" where
  "onNetworkError cfg opts s match =
     (if \<not> failOnNetworkError_arg cfg opts then s
      else
        (case isMatchPatterns (regexps s) (ignoreNetworkErrorsPatterns_arg cfg opts) (url match) of
           (shouldIgnore, h) \<Rightarrow>
             if \<not> shouldIgnore \<and> shouldThrowError_arg opts match
             then reject (s\<lparr>regexps := h\<rparr>) (networkErrorMessage match)
             else s\<lparr>regexps := h\<rparr>))"

text \<open>One delivered event runs the handler registered for it.\<close>

fun handle :: "config \<Rightarrow> 'p waitOpts \<Rightarrow> state \<Rightarrow> event \<Rightarrow> state" where
  "handle cfg opts s (PageLoadError err) = handleError s err"
| "handle cfg opts s (SelectorsError err) = handleError s err"
| "handle cfg opts s (PredicateError err) = handleError s err"
| "handle cfg opts s (NetworkError match) = onNetworkError cfg opts s match"
| "handle cfg opts s SelectorsExist = checkLoaded (s\<lparr>selectorsResolved := True\<rparr>)"
| "handle cfg opts s PredicateResolved = checkLoaded (s\<lparr>predicateResolved := True\<rparr>)"
| "handle cfg opts s NetworkResolved = checkLoaded (s\<lparr>networkResolved := True\<rparr>)"
| "handle cfg opts s LoadDone = checkLoaded s"
| "handle cfg opts s (LoadFailed err) = s"

definition run :: "config \<Rightarrow> 'p waitOpts \<Rightarrow> state \<Rightarrow> event list \<Rightarrow> state" where
  "run cfg opts s evs = foldl (handle cfg opts) s evs"

subsection \<open>The command\<close>

text \<open>
  The store \<open>h\<close> holds the regular expression objects as they are when the command is
  called.
\<close>

definition openAndWait ::
  "config \<Rightarrow> (nat \<Rightarrow> regexp) \<Rightarrow> string \<Rightarrow> 'p waitOpts \<Rightarrow> 'p invocation" where
  "openAndWait cfg h uri opts =
     (if uri = [] \<or> uri = emptyPageUrl then Navigate uri
      else
        Watch
          \<lparr>pl_selectors = selectors opts,
           pl_predicate = predicate opts,
           pl_timeout = timeout_arg cfg opts,
           pl_waitNetworkIdle = waitNetworkIdle_eff cfg opts,
           pl_waitNetworkIdleTimeout = waitNetworkIdleTimeout_arg cfg opts\<rparr>
          \<lparr>selectorsResolved = (length (selectors opts) = 0),
           predicateResolved = (predicate opts = None),
           networkResolved = (\<not> waitNetworkIdle_eff cfg opts),
           promise = Pending,
           regexps = h\<rparr>)"

text \<open>
  The state of the returned promise after the navigation outcome \<open>nav\<close> and the delivered
  events \<open>evs\<close>. The blank-page branch resolves from the fulfilment of
  \<^verbatim>\<open>session.url(uri)\<close> and registers nothing for its rejection. In the other
  branch the navigation runs inside the page loader, which reports through its events.
  The \<^verbatim>\<open>finally\<close> clause unsubscribes the page loader once the promise has
  settled; it can only remove events from \<open>evs\<close>, which ranges over all sequences.
\<close>

definition outcome ::
  "config \<Rightarrow> (nat \<Rightarrow> regexp) \<Rightarrow> string \<Rightarrow> 'p waitOpts \<Rightarrow> navigation \<Rightarrow> event list
    \<Rightarrow> settled" where
  "outcome cfg h uri opts nav evs =
     (case openAndWait cfg h uri opts of
        Navigate u \<Rightarrow> (case nav of NavDone \<Rightarrow> Resolved | NavFailed err \<Rightarrow> Pending | NavPending \<Rightarrow> Pending)
      | Watch pl s \<Rightarrow> promise (run cfg opts s evs))"

subsection \<open>Sample inputs\<close>

text \<open>
  The matcher of a regular expression that is a plain text without special characters:
  the first occurrence of the text at or after the start index, or at the start index
  only for a sticky expression.
\<close>

fun search_text :: "string \<Rightarrow> string \<Rightarrow> nat \<Rightarrow> nat option" where
  "search_text needle [] k = (if needle = [] then Some k else None)"
| "search_text needle (c # cs) k =
     (if prefix needle (c # cs) then Some (k + length needle)
      else search_text needle cs (Suc k))"

definition text_matcher :: "string \<Rightarrow> bool \<Rightarrow> string \<Rightarrow> nat \<Rightarrow> (nat \<times> string list) option" where
  "text_matcher needle anchored str start =
     (if anchored
      then (if prefix needle (drop start str) then Some (start + length needle, [needle])
            else None)
      else (case search_text needle (drop start str) start of
              None \<Rightarrow> None | Some e \<Rightarrow> Some (e, [needle])))"

text \<open>
  A session without the capability to observe the network, one with it, a caller who
  passes no option, the regular expression \<^verbatim>\<open>/cdn\.example\.com/g\<close> before its first
  use, a closure state that still waits for its selectors, and network matches of a
  script, of a favicon and of a font.
\<close>

abbreviation session_defaults :: openAndWaitOpts where
  "session_defaults \<equiv>
     \<lparr>cfg_timeout = None, cfg_waitNetworkIdle = True, cfg_waitNetworkIdleTimeout = 500,
      cfg_failOnNetworkError = True, cfg_ignoreNetworkErrorsPatterns = []\<rparr>"

abbreviation firefox_config :: config where
  "firefox_config \<equiv>
     \<lparr>browserName = ''firefox'', automationProtocol = webdriver, pageLoadTimeout = 20000,
      openAndWaitOpts = session_defaults\<rparr>"

abbreviation chrome_config :: config where
  "chrome_config \<equiv>
     \<lparr>browserName = ''chrome'', automationProtocol = webdriver, pageLoadTimeout = 20000,
      openAndWaitOpts = session_defaults\<rparr>"

abbreviation no_opts :: "unit waitOpts" where
  "no_opts \<equiv>
     \<lparr>selector = None, predicate = None, waitNetworkIdle = None,
      waitNetworkIdleTimeout = None, failOnNetworkError = None, shouldThrowError = None,
      ignoreNetworkErrorsPatterns = None, timeout = None\<rparr>"

abbreviation cdn_regexp :: regexp where
  "cdn_regexp \<equiv>
     \<lparr>matcher = text_matcher ''cdn.example.com'' False, global = True, sticky = False,
      lastIndex = 0\<rparr>"

definition fresh_regexps :: "nat \<Rightarrow> regexp" where
  "fresh_regexps r = cdn_regexp"

abbreviation waiting_state :: state where
  "waiting_state \<equiv>
     \<lparr>selectorsResolved = False, predicateResolved = True, networkResolved = True,
      promise = Pending, regexps = fresh_regexps\<rparr>"

abbreviation script_match :: matches where
  "script_match \<equiv> \<lparr>url = ''https://example.com/app.js'', headers = None, statusCode = 500\<rparr>"

abbreviation favicon_match :: matches where
  "favicon_match \<equiv>
     \<lparr>url = ''https://example.com/favicon.ico'', headers = Some [''Accept'' \<mapsto> ''image/*''],
      statusCode = 404\<rparr>"

abbreviation font_match :: matches where
  "font_match \<equiv>
     \<lparr>url = ''https://cdn.example.com/font.woff'', headers = None, statusCode = 404\<rparr>"

section \<open>Properties\<close>

subsection \<open>Auxiliary facts about the handlers\<close>


lemma endsWith_iff: "endsWith str search \<longleftrightarrow> (\<exists>a. str = a @ search)"
  by (simp add: endsWith_def suffix_def)

lemma onNetworkError_off:
  "\<not> failOnNetworkError_arg cfg opts \<Longrightarrow> onNetworkError cfg opts s m = s"
  by (simp add: onNetworkError_def)

lemma onNetworkError_on:
  assumes "failOnNetworkError_arg cfg opts"
  shows "onNetworkError cfg opts s m =
    (if \<not> fst (isMatchPatterns (regexps s) (ignoreNetworkErrorsPatterns_arg cfg opts) (url m))
        \<and> shouldThrowError_arg opts m
     then reject
       (s\<lparr>regexps :=
           snd (isMatchPatterns (regexps s) (ignoreNetworkErrorsPatterns_arg cfg opts) (url m))\<rparr>)
       (networkErrorMessage m)
     else s\<lparr>regexps :=
           snd (isMatchPatterns (regexps s) (ignoreNetworkErrorsPatterns_arg cfg opts) (url m))\<rparr>)"
  using assms by (simp add: onNetworkError_def split: prod.splits)

text \<open>A network error that does not reject changes nothing but the store.\<close>

lemma onNetworkError_quiet:
  assumes "fst (isMatchPatterns (regexps s) (ignoreNetworkErrorsPatterns_arg cfg opts) (url m))
      \<or> \<not> shouldThrowError_arg opts m"
  shows "onNetworkError cfg opts s m = s\<lparr>regexps := regexps (onNetworkError cfg opts s m)\<rparr>"
    and "promise (onNetworkError cfg opts s m) = promise s"
  using assms
  by (cases "failOnNetworkError_arg cfg opts"; auto simp: onNetworkError_off onNetworkError_on)+

lemma onNetworkError_fatal:
  assumes "failOnNetworkError_arg cfg opts"
    and "\<not> fst (isMatchPatterns (regexps s) (ignoreNetworkErrorsPatterns_arg cfg opts) (url m))"
    and "shouldThrowError_arg opts m"
    and "promise s = Pending"
  shows "onNetworkError cfg opts s m =
    s\<lparr>regexps :=
         snd (isMatchPatterns (regexps s) (ignoreNetworkErrorsPatterns_arg cfg opts) (url m)),
      promise := Rejected (networkErrorMessage m)\<rparr>"
  using assms by (simp add: onNetworkError_on reject_def)

lemma handle_settled: "promise s \<noteq> Pending \<Longrightarrow> promise (handle cfg opts s e) = promise s"
  by (cases e)
    (simp_all add: handleError_def reject_def resolve_def checkLoaded_def onNetworkError_def
      split: prod.splits)

lemma run_Nil: "run cfg opts s [] = s"
  by (simp add: run_def)

lemma run_Cons: "run cfg opts s (e # evs) = run cfg opts (handle cfg opts s e) evs"
  by (simp add: run_def)

lemma run_append: "run cfg opts s (xs @ ys) = run cfg opts (run cfg opts s xs) ys"
  by (simp add: run_def)

lemma run_snoc: "run cfg opts s (xs @ [e]) = handle cfg opts (run cfg opts s xs) e"
  by (simp add: run_def)

lemma run_settled: "promise s \<noteq> Pending \<Longrightarrow> promise (run cfg opts s evs) = promise s"
proof (induction evs arbitrary: s)
  case Nil
  show ?case by (simp add: run_Nil)
next
  case (Cons e evs)
  from Cons.prems have "promise (handle cfg opts s e) = promise s"
    by (rule handle_settled)
  with Cons.prems Cons.IH [of "handle cfg opts s e"] show ?case
    by (simp add: run_Cons)
qed

text \<open>An event whose handler changes nothing can be dropped from any run.\<close>

lemma run_drop:
  assumes "\<And>s. handle cfg opts s e = s"
  shows "run cfg opts s (xs @ e # ys) = run cfg opts s (xs @ ys)"
  by (simp add: run_append run_Cons assms)

lemma networkResolved_handle:
  "networkResolved s \<Longrightarrow> networkResolved (handle cfg opts s e)"
  by (cases e)
    (simp_all add: handleError_def reject_def resolve_def checkLoaded_def onNetworkError_def
      split: prod.splits)

lemma networkResolved_run:
  "networkResolved s \<Longrightarrow> networkResolved (run cfg opts s evs)"
proof (induction evs arbitrary: s)
  case Nil
  then show ?case by (simp add: run_Nil)
next
  case (Cons e evs)
  then show ?case by (simp add: run_Cons networkResolved_handle)
qed

lemma openAndWait_blank:
  "uri = [] \<or> uri = ''about:blank'' \<Longrightarrow> openAndWait cfg h uri opts = Navigate uri"
  by (auto simp: openAndWait_def emptyPageUrl_def)

text \<open>
  A pattern that matches in the store at hand makes \<^verbatim>\<open>some\<close> true: the patterns
  tried before it either end the iteration with true or leave its object untouched.
\<close>

lemma some_pattern_hit:
  assumes "p \<in> set ps"
    and "case p of Literal t \<Rightarrow> includes_str str t | RegExp r \<Rightarrow> fst (exec (h r) str) \<noteq> None"
  shows "fst (some_pattern h ps str)"
  using assms
proof (induction ps arbitrary: h)
  case Nil
  then show ?case by simp
next
  case (Cons q ps)
  obtain b h' where q: "matchPattern h str q = (b, h')"
    by (cases "matchPattern h str q")
  show ?case
  proof (cases b)
    case True
    with q show ?thesis by simp
  next
    case False
    have neq: "p \<noteq> q"
    proof
      assume "p = q"
      with Cons.prems(2) q False show False
        by (cases q) (auto simp: matchPattern_def split: prod.splits)
    qed
    with Cons.prems(1) have mem: "p \<in> set ps" by simp
    have keep: "case p of Literal t \<Rightarrow> includes_str str t
        | RegExp r \<Rightarrow> fst (exec (h' r) str) \<noteq> None"
    proof (cases p)
      case (Literal t)
      with Cons.prems(2) show ?thesis by simp
    next
      case (RegExp r)
      with neq q have "h' r = h r"
        by (cases q) (auto simp: matchPattern_def split: prod.splits)
      with RegExp Cons.prems(2) show ?thesis by simp
    qed
    from Cons.IH [OF mem keep] q False show ?thesis by simp
  qed
qed

subsection \<open>The effective network-idle flag\<close>

text \<open>
  C1. The flag in force after line 62 is the conjunction of the caller's intent (the
  caller's option, else the session's) and the capability of the session, which holds
  exactly for the browser name "chrome" or the automation protocol "devtools". Without
  the capability the flag is off, the page loader is built with it off, the closure
  variable networkResolved starts true and stays true over every sequence of events, so
  that the readiness check never depends on a network-idle event.
\<close>

theorem effective_waitNetworkIdle:
  "waitNetworkIdle_eff cfg opts =
     ((case waitNetworkIdle opts of
         None \<Rightarrow> cfg_waitNetworkIdle (openAndWaitOpts cfg) | Some b \<Rightarrow> b)
      \<and> (browserName cfg = ''chrome'' \<or> automationProtocol cfg = devtools))
   \<and> (\<not> (browserName cfg = ''chrome'' \<or> automationProtocol cfg = devtools) \<longrightarrow>
        \<not> waitNetworkIdle_eff cfg opts
        \<and> (\<forall>pl s. openAndWait cfg h uri opts = Watch pl s \<longrightarrow>
              \<not> pl_waitNetworkIdle pl \<and> networkResolved s
              \<and> (\<forall>evs. networkResolved (run cfg opts s evs))))"
proof -
  have eff: "waitNetworkIdle_eff cfg opts =
     ((case waitNetworkIdle opts of
         None \<Rightarrow> cfg_waitNetworkIdle (openAndWaitOpts cfg) | Some b \<Rightarrow> b)
      \<and> (browserName cfg = ''chrome'' \<or> automationProtocol cfg = devtools))"
    by (simp add: waitNetworkIdle_eff_def waitNetworkIdle_arg_def isChrome_def isCDP_def)
  have off: "\<not> pl_waitNetworkIdle pl \<and> networkResolved s
      \<and> (\<forall>evs. networkResolved (run cfg opts s evs))"
    if cap: "\<not> (browserName cfg = ''chrome'' \<or> automationProtocol cfg = devtools)"
      and w: "openAndWait cfg h uri opts = Watch pl s" for pl s
  proof -
    from cap eff have "\<not> waitNetworkIdle_eff cfg opts" by simp
    with w have "\<not> pl_waitNetworkIdle pl" and n: "networkResolved s"
      by (auto simp: openAndWait_def split: if_splits)
    moreover from n have "\<forall>evs. networkResolved (run cfg opts s evs)"
      by (simp add: networkResolved_run)
    ultimately show ?thesis by simp
  qed
  from eff off show ?thesis by blast
qed

theorem effective_waitNetworkIdle_witness:
  "\<not> (browserName firefox_config = ''chrome'' \<or> automationProtocol firefox_config = devtools)
   \<and> \<not> waitNetworkIdle_eff firefox_config (no_opts\<lparr>waitNetworkIdle := Some True\<rparr>)
   \<and> (\<exists>pl s. openAndWait firefox_config fresh_regexps ''https://example.com''
                 (no_opts\<lparr>waitNetworkIdle := Some True\<rparr>) = Watch pl s
          \<and> \<not> pl_waitNetworkIdle pl \<and> networkResolved s
          \<and> networkResolved
               (run firefox_config (no_opts\<lparr>waitNetworkIdle := Some True\<rparr>) s [LoadDone]))"
proof -
  have cap:
    "\<not> (browserName firefox_config = ''chrome'' \<or> automationProtocol firefox_config = devtools)"
    by simp
  obtain pl s where w: "openAndWait firefox_config fresh_regexps ''https://example.com''
      (no_opts\<lparr>waitNetworkIdle := Some True\<rparr>) = Watch pl s"
    by (simp add: openAndWait_def emptyPageUrl_def)
  from cap w
    effective_waitNetworkIdle [of firefox_config "no_opts\<lparr>waitNetworkIdle := Some True\<rparr>"
      fresh_regexps "''https://example.com''"]
  show ?thesis by blast
qed

subsection \<open>The blank page\<close>

text \<open>
  C2. For the empty URI and for "about:blank" the command only navigates: no page loader
  is set up, the promise is resolved once the navigation is fulfilled, it is pending while
  the navigation is, and no event of a watcher has any influence on it.
\<close>

theorem blank_uri_bypasses_watchers:
  assumes "uri = [] \<or> uri = ''about:blank''"
  shows "openAndWait cfg h uri opts = Navigate uri
    \<and> outcome cfg h uri opts NavDone evs = Resolved
    \<and> outcome cfg h uri opts NavPending evs = Pending
    \<and> outcome cfg h uri opts nav evs = outcome cfg h uri opts nav []"
  using openAndWait_blank [OF assms, of cfg h opts] by (simp add: outcome_def)

theorem blank_uri_bypasses_watchers_witness:
  "openAndWait chrome_config fresh_regexps ''about:blank'' no_opts = Navigate ''about:blank''
   \<and> outcome chrome_config fresh_regexps ''about:blank'' no_opts NavDone
        [SelectorsError ''timed out''] = Resolved
   \<and> openAndWait chrome_config fresh_regexps [] no_opts = Navigate []
   \<and> outcome chrome_config fresh_regexps [] no_opts NavDone [PredicateError ''failed'']
       = Resolved"
proof -
  have a: "''about:blank'' = [] \<or> ''about:blank'' = ''about:blank''" by simp
  have e: "([]::string) = [] \<or> [] = ''about:blank''" by simp
  from blank_uri_bypasses_watchers
      [OF a, of chrome_config fresh_regexps no_opts "[SelectorsError ''timed out'']" NavDone]
    blank_uri_bypasses_watchers
      [OF e, of chrome_config fresh_regexps no_opts "[PredicateError ''failed'']" NavDone]
  show ?thesis by blast
qed

text \<open>
  C3. A failed navigation to the empty URI or to "about:blank" leaves the promise pending
  for ever: the blank-page branch registers no rejection handler, so nothing rejects with
  "url: " and the navigation error's message.
\<close>

theorem blank_uri_navigation_failure_pending:
  "outcome cfg h [] opts (NavFailed err) evs = Pending
   \<and> outcome cfg h ''about:blank'' opts (NavFailed err) evs = Pending"
  by (simp add: outcome_def openAndWait_blank)

theorem blank_uri_navigation_failure_pending_witness:
  "outcome chrome_config fresh_regexps [] no_opts (NavFailed ''net::ERR_CONNECTION_REFUSED'') []
     = Pending
   \<and> outcome chrome_config fresh_regexps [] no_opts
        (NavFailed ''net::ERR_CONNECTION_REFUSED'') []
       \<noteq> Rejected (''url: '' @ ''net::ERR_CONNECTION_REFUSED'')"
  using blank_uri_navigation_failure_pending
    [of chrome_config fresh_regexps no_opts "''net::ERR_CONNECTION_REFUSED''" "[]"]
  by simp

text \<open>
  The other branch does reject: once the page loader reports the failed navigation, a
  pending promise is rejected with "url: " and the message.
\<close>

lemma watched_navigation_failure_rejects:
  assumes "uri \<noteq> []" and "uri \<noteq> ''about:blank''"
  shows "outcome cfg h uri opts nav (PageLoadError err # evs) = Rejected (''url: '' @ err)"
proof -
  from assms obtain pl s where w: "openAndWait cfg h uri opts = Watch pl s"
    and p: "promise s = Pending"
    by (simp add: openAndWait_def emptyPageUrl_def)
  from p have "promise (handle cfg opts s (PageLoadError err)) = Rejected (''url: '' @ err)"
    by (simp add: handleError_def reject_def)
  then have "promise (run cfg opts s (PageLoadError err # evs)) = Rejected (''url: '' @ err)"
    by (simp add: run_Cons run_settled)
  with w show ?thesis by (simp add: outcome_def)
qed

subsection \<open>Network errors\<close>

text \<open>
  C4. With failOnNetworkError in force and the default classification (the caller passes
  no shouldThrowError), a failing match whose url ends in "/favicon.ico" never rejects,
  whatever its status code and headers: in every state its handler leaves the promise and
  the three closure variables as they are (only the regular expressions among the
  patterns have been executed), and after any sequence of events the outcome is the same
  with and without the match.
\<close>

theorem favicon_never_rejects:
  assumes "failOnNetworkError_arg cfg opts"
    and "shouldThrowError opts = None"
    and "endsWith (url m) ''/favicon.ico''"
  shows "handle cfg opts s (NetworkError m) =
      s\<lparr>regexps :=
          snd (isMatchPatterns (regexps s) (ignoreNetworkErrorsPatterns_arg cfg opts) (url m))\<rparr>
    \<and> promise (handle cfg opts s (NetworkError m)) = promise s
    \<and> promise (run cfg opts s (xs @ [NetworkError m])) = promise (run cfg opts s xs)"
proof -
  from assms(2,3) have "\<not> shouldThrowError_arg opts m"
    by (simp add: shouldThrowError_arg_def shouldThrowErrorDefault_def is_favicon_def)
  with assms(1) have quiet: "handle cfg opts t (NetworkError m) =
      t\<lparr>regexps :=
          snd (isMatchPatterns (regexps t) (ignoreNetworkErrorsPatterns_arg cfg opts) (url m))\<rparr>"
    for t
    by (simp add: onNetworkError_on)
  from quiet [of s] quiet [of "run cfg opts s xs"] show ?thesis
    by (simp add: run_snoc)
qed

theorem favicon_never_rejects_witness:
  "failOnNetworkError_arg chrome_config no_opts
   \<and> shouldThrowError no_opts = None
   \<and> endsWith (url favicon_match) ''/favicon.ico''
   \<and> handle chrome_config no_opts waiting_state (NetworkError favicon_match) = waiting_state
   \<and> promise (run chrome_config no_opts waiting_state ([SelectorsExist] @ [NetworkError favicon_match]))
       = Resolved"
proof -
  have f: "failOnNetworkError_arg chrome_config no_opts"
    by (simp add: failOnNetworkError_arg_def)
  have d: "shouldThrowError no_opts = None" by simp
  have e: "endsWith (url favicon_match) ''/favicon.ico''"
    by (simp add: endsWith_def suffix_to_prefix)
  have r: "promise (run chrome_config no_opts waiting_state [SelectorsExist]) = Resolved"
    by (simp add: run_Cons run_Nil checkLoaded_def resolve_def)
  have st: "snd (isMatchPatterns (regexps waiting_state)
      (ignoreNetworkErrorsPatterns_arg chrome_config no_opts) (url favicon_match))
      = regexps waiting_state"
    by (simp add: isMatchPatterns_def ignoreNetworkErrorsPatterns_arg_def)
  from favicon_never_rejects [OF f d e, of waiting_state "[SelectorsExist]"] f d e r st
  show ?thesis by simp
qed






text \<open>
  The store matters for a regular expression with the g flag. After
  \<^verbatim>\<open>/cdn\.example\.com/g\<close> has matched a url, its lastIndex is at the end of that
  match, so its next exec on the same url starts there and finds nothing: the first
  failing font from the CDN is ignored, the second one rejects.
\<close>

lemma global_regexp_next_match_not_ignored:
  "promise (run chrome_config (no_opts\<lparr>ignoreNetworkErrorsPatterns := Some [RegExp 0]\<rparr>)
      waiting_state [NetworkError font_match]) = Pending
   \<and> lastIndex (regexps (run chrome_config
        (no_opts\<lparr>ignoreNetworkErrorsPatterns := Some [RegExp 0]\<rparr>)
        waiting_state [NetworkError font_match]) 0) = 23
   \<and> promise (run chrome_config (no_opts\<lparr>ignoreNetworkErrorsPatterns := Some [RegExp 0]\<rparr>)
      waiting_state [NetworkError font_match, NetworkError font_match])
     = Rejected ''url: couldn't get content from https://cdn.example.com/font.woff: 404''"
proof -
  have code: "string_of_nat 404 = ''404''" by code_simp
  show ?thesis
    by (simp add: run_Cons run_Nil onNetworkError_def failOnNetworkError_arg_def
        isMatchPatterns_def ignoreNetworkErrorsPatterns_arg_def matchPattern_def exec_def
        fresh_regexps_def text_matcher_def shouldThrowError_arg_def shouldThrowErrorDefault_def
        is_favicon_def is_image_def is_stylesheet_def is_font_def truthy_def endsWith_def
        suffix_to_prefix reject_def networkErrorMessage_def code)
qed

text \<open>
  The handlers change nothing of a regular expression but its lastIndex, and a regular
  expression without the g and y flags neither reads nor writes it. Such a pattern
  matches a url or not once and for all: when it does, a failing match to that url is
  ignored after every sequence of events.
\<close>

lemma exec_shape:
  assumes "exec re str = (res, re')"
  shows "matcher re' = matcher re \<and> global re' = global re \<and> sticky re' = sticky re"
  using assms by (auto simp: exec_def Let_def split: option.splits prod.splits if_splits)

lemma exec_plain:
  assumes "\<not> global re" and "\<not> sticky re"
  shows "exec re str = (map_option snd (matcher re str 0), re)"
  using assms by (simp add: exec_def split: option.splits prod.splits)

lemma matchPattern_shape:
  "matcher (snd (matchPattern h str p) r) = matcher (h r)
   \<and> global (snd (matchPattern h str p) r) = global (h r)
   \<and> sticky (snd (matchPattern h str p) r) = sticky (h r)"
proof (cases p)
  case (Literal t)
  then show ?thesis by (simp add: matchPattern_def)
next
  case (RegExp q)
  obtain res re' where e: "exec (h q) str = (res, re')"
    by (cases "exec (h q) str")
  from exec_shape [OF e] RegExp e show ?thesis
    by (simp add: matchPattern_def)
qed

lemma some_pattern_shape:
  "matcher (snd (some_pattern h ps str) r) = matcher (h r)
   \<and> global (snd (some_pattern h ps str) r) = global (h r)
   \<and> sticky (snd (some_pattern h ps str) r) = sticky (h r)"
proof (induction ps arbitrary: h)
  case Nil
  show ?case by simp
next
  case (Cons p ps)
  obtain b h' where m: "matchPattern h str p = (b, h')"
    by (cases "matchPattern h str p")
  with matchPattern_shape [of h str p r]
  have h': "matcher (h' r) = matcher (h r) \<and> global (h' r) = global (h r)
      \<and> sticky (h' r) = sticky (h r)"
    by simp
  show ?case
  proof (cases b)
    case True
    with m h' show ?thesis by simp
  next
    case False
    with m h' Cons.IH [of h'] show ?thesis by simp
  qed
qed

lemma handle_shape:
  "matcher (regexps (handle cfg opts s e) r) = matcher (regexps s r)
   \<and> global (regexps (handle cfg opts s e) r) = global (regexps s r)
   \<and> sticky (regexps (handle cfg opts s e) r) = sticky (regexps s r)"
proof (cases e)
  case (NetworkError m)
  show ?thesis
  proof (cases "failOnNetworkError_arg cfg opts")
    case True
    with NetworkError
      some_pattern_shape [of "regexps s"
        "case ignoreNetworkErrorsPatterns_arg cfg opts of None \<Rightarrow> [] | Some ps \<Rightarrow> ps"
        "url m" r]
    show ?thesis
      by (simp add: onNetworkError_on isMatchPatterns_def reject_def)
  next
    case False
    with NetworkError show ?thesis by (simp add: onNetworkError_off)
  qed
qed (simp_all add: handleError_def reject_def resolve_def checkLoaded_def)

lemma run_shape:
  "matcher (regexps (run cfg opts s evs) r) = matcher (regexps s r)
   \<and> global (regexps (run cfg opts s evs) r) = global (regexps s r)
   \<and> sticky (regexps (run cfg opts s evs) r) = sticky (regexps s r)"
proof (induction evs rule: rev_induct)
  case Nil
  show ?case by (simp add: run_Nil)
next
  case (snoc e evs)
  with handle_shape [of cfg opts "run cfg opts s evs" e r] show ?case
    by (simp add: run_snoc)
qed

lemma plain_regexp_always_ignored:
  assumes "RegExp r \<in> set (case ignoreNetworkErrorsPatterns opts of
                      None \<Rightarrow> cfg_ignoreNetworkErrorsPatterns (openAndWaitOpts cfg)
                    | Some ps \<Rightarrow> ps)"
    and "\<not> global (regexps s r)" and "\<not> sticky (regexps s r)"
    and "matcher (regexps s r) (url m) 0 \<noteq> None"
  shows "promise (run cfg opts s (xs @ [NetworkError m])) = promise (run cfg opts s xs)"
proof -
  let ?t = "run cfg opts s xs"
  from assms(2,3,4) run_shape [of cfg opts s xs r]
  have "\<not> global (regexps ?t r)" and "\<not> sticky (regexps ?t r)"
    and "matcher (regexps ?t r) (url m) 0 \<noteq> None"
    by simp_all
  then have hit: "fst (exec (regexps ?t r) (url m)) \<noteq> None"
    by (simp add: exec_plain)
  have "fst (isMatchPatterns (regexps ?t) (ignoreNetworkErrorsPatterns_arg cfg opts) (url m))"
    unfolding isMatchPatterns_def
  proof (rule some_pattern_hit)
    from assms(1)
    show "RegExp r \<in> set (case ignoreNetworkErrorsPatterns_arg cfg opts of
        None \<Rightarrow> [] | Some ps \<Rightarrow> ps)"
      by (simp add: ignoreNetworkErrorsPatterns_arg_def split: option.splits)
    from hit show "case RegExp r of Literal t \<Rightarrow> includes_str (url m) t
        | RegExp q \<Rightarrow> fst (exec (regexps ?t q) (url m)) \<noteq> None"
      by simp
  qed
  then have "promise (onNetworkError cfg opts ?t m) = promise ?t"
    by (simp add: onNetworkError_quiet(2))
  then show ?thesis by (simp add: run_snoc)
qed

text \<open>
  C7. When the failOnNetworkError in force (the caller's option, else the session's) is
  false, the handler of a network error returns at once for every match, whatever the
  patterns and the classification: the state is unchanged and the event can be dropped
  from any sequence of events.
\<close>

theorem failOnNetworkError_off_never_rejects:
  assumes "\<not> (case failOnNetworkError opts of
                 None \<Rightarrow> cfg_failOnNetworkError (openAndWaitOpts cfg) | Some b \<Rightarrow> b)"
  shows "handle cfg opts s (NetworkError m) = s
    \<and> run cfg opts s (xs @ NetworkError m # ys) = run cfg opts s (xs @ ys)"
proof -
  from assms have "\<not> failOnNetworkError_arg cfg opts"
    by (simp add: failOnNetworkError_arg_def)
  then have noop: "handle cfg opts t (NetworkError m) = t" for t
    by (simp add: onNetworkError_off)
  from noop [of s] run_drop [of cfg opts "NetworkError m" s xs ys, OF noop]
  show ?thesis by simp
qed

theorem failOnNetworkError_off_never_rejects_witness:
  "handle chrome_config
     (no_opts\<lparr>failOnNetworkError := Some False, shouldThrowError := Some (\<lambda>_. True)\<rparr>)
     waiting_state (NetworkError script_match)
   = waiting_state"
proof -
  let ?opts = "no_opts\<lparr>failOnNetworkError := Some False, shouldThrowError := Some (\<lambda>_. True)\<rparr>"
  have off: "\<not> (case failOnNetworkError ?opts of
      None \<Rightarrow> cfg_failOnNetworkError (openAndWaitOpts chrome_config) | Some b \<Rightarrow> b)"
    by simp
  from failOnNetworkError_off_never_rejects [OF off, of waiting_state script_match "[]" "[]"]
  show ?thesis by simp
qed

text \<open>
  C10, as the claim states it, fails: an override that returns true does not reject by
  itself. With failOnNetworkError false the handler returns before the override is
  consulted, so a favicon match that no pattern ignores, under an override that is true
  for it, leaves a pending promise pending.
\<close>

theorem override_alone_rejects_counterexample:
  "shouldThrowError (no_opts\<lparr>failOnNetworkError := Some False,
      shouldThrowError := Some is_favicon\<rparr>) = Some is_favicon
   \<and> is_favicon \<lparr>url = ''https://example.com/favicon.ico'', headers = None, statusCode = 404\<rparr>
   \<and> \<not> fst (isMatchPatterns (regexps waiting_state)
        (ignoreNetworkErrorsPatterns_arg chrome_config
          (no_opts\<lparr>failOnNetworkError := Some False, shouldThrowError := Some is_favicon\<rparr>))
        ''https://example.com/favicon.ico'')
   \<and> promise waiting_state = Pending
   \<and> promise (handle chrome_config
        (no_opts\<lparr>failOnNetworkError := Some False, shouldThrowError := Some is_favicon\<rparr>)
        waiting_state
        (NetworkError
          \<lparr>url = ''https://example.com/favicon.ico'', headers = None, statusCode = 404\<rparr>))
     = Pending"
  by (simp add: is_favicon_def endsWith_def suffix_to_prefix isMatchPatterns_def
      ignoreNetworkErrorsPatterns_arg_def onNetworkError_def failOnNetworkError_arg_def)

text \<open>
  C10, amended. A shouldThrowError supplied by the caller replaces the default
  classification, the favicon exclusion included: with failOnNetworkError in force (the
  caller's option, else the session's) and the promise still pending, a failing match
  that the ignore patterns in force (the caller's list, else the session's) do not ignore
  rejects exactly when the override returns true, with "url: couldn't get content from ",
  the url, ": " and the status code, and leaves the promise and the closure variables as
  they are otherwise. An override that returns true for a url ending in "/favicon.ico"
  makes that match reject.
\<close>

theorem override_replaces_default:
  assumes "shouldThrowError opts = Some f"
    and "failOnNetworkError_arg cfg opts"
    and "\<not> fst (isMatchPatterns (regexps s) (ignoreNetworkErrorsPatterns_arg cfg opts) (url m))"
    and "promise s = Pending"
  shows "handle cfg opts s (NetworkError m) =
     (if f m
      then s\<lparr>regexps :=
               snd (isMatchPatterns (regexps s) (ignoreNetworkErrorsPatterns_arg cfg opts) (url m)),
             promise := Rejected (''url: couldn't get content from '' @ url m @ '': ''
                @ string_of_nat (statusCode m))\<rparr>
      else s\<lparr>regexps :=
               snd (isMatchPatterns (regexps s) (ignoreNetworkErrorsPatterns_arg cfg opts) (url m))\<rparr>)"
proof -
  from assms(1) have cls: "shouldThrowError_arg opts m = f m"
    by (simp add: shouldThrowError_arg_def)
  show ?thesis
  proof (cases "f m")
    case True
    with assms(2,3,4) cls show ?thesis
      by (simp add: onNetworkError_fatal networkErrorMessage_def)
  next
    case False
    with assms(2) cls show ?thesis
      by (simp add: onNetworkError_on)
  qed
qed

theorem override_replaces_default_witness:
  "endsWith (url favicon_match) ''/favicon.ico''
   \<and> promise (handle chrome_config (no_opts\<lparr>shouldThrowError := Some (\<lambda>_. True)\<rparr>)
        waiting_state (NetworkError favicon_match))
     = Rejected ''url: couldn't get content from https://example.com/favicon.ico: 404''"
proof -
  let ?opts = "no_opts\<lparr>shouldThrowError := Some (\<lambda>_. True)\<rparr>"
  have o: "shouldThrowError ?opts = Some (\<lambda>_. True)" by simp
  have f: "failOnNetworkError_arg chrome_config ?opts"
    by (simp add: failOnNetworkError_arg_def)
  have i: "\<not> fst (isMatchPatterns (regexps waiting_state)
      (ignoreNetworkErrorsPatterns_arg chrome_config ?opts) (url favicon_match))"
    by (simp add: isMatchPatterns_def ignoreNetworkErrorsPatterns_arg_def)
  have p: "promise waiting_state = Pending" by simp
  have e: "endsWith (url favicon_match) ''/favicon.ico''"
    by (simp add: endsWith_def suffix_to_prefix)
  have code: "string_of_nat 404 = ''404''" by code_simp
  from override_replaces_default [OF o f i p] e code
  show ?thesis by simp
qed

subsection \<open>Readiness and settlement\<close>

lemma selectorsResolved_handle:
  "selectorsResolved (handle cfg opts t e) \<longleftrightarrow> selectorsResolved t \<or> e = SelectorsExist"
  by (cases e)
    (simp_all add: handleError_def reject_def resolve_def checkLoaded_def onNetworkError_def
      split: prod.splits)

lemma predicateResolved_handle:
  "predicateResolved (handle cfg opts t e) \<longleftrightarrow> predicateResolved t \<or> e = PredicateResolved"
  by (cases e)
    (simp_all add: handleError_def reject_def resolve_def checkLoaded_def onNetworkError_def
      split: prod.splits)

lemma networkResolved_handle_iff:
  "networkResolved (handle cfg opts t e) \<longleftrightarrow> networkResolved t \<or> e = NetworkResolved"
  by (cases e)
    (simp_all add: handleError_def reject_def resolve_def checkLoaded_def onNetworkError_def
      split: prod.splits)

lemma handle_Resolved_iff:
  assumes "promise s = Pending"
  shows "promise (handle cfg opts s e) = Resolved \<longleftrightarrow>
    e \<in> {SelectorsExist, PredicateResolved, NetworkResolved, LoadDone}
    \<and> selectorsResolved (handle cfg opts s e)
    \<and> predicateResolved (handle cfg opts s e)
    \<and> networkResolved (handle cfg opts s e)"
  using assms
  by (cases e)
    (auto simp: handleError_def reject_def resolve_def checkLoaded_def onNetworkError_def
      split: prod.splits)

lemma handle_Rejected_iff:
  assumes "promise s = Pending"
  shows "promise (handle cfg opts s e) = Rejected msg \<longleftrightarrow>
    (\<exists>err. e \<in> {PageLoadError err, SelectorsError err, PredicateError err}
        \<and> msg = ''url: '' @ err)
    \<or> (\<exists>m. e = NetworkError m \<and> failOnNetworkError_arg cfg opts
        \<and> \<not> fst (isMatchPatterns (regexps s) (ignoreNetworkErrorsPatterns_arg cfg opts) (url m))
        \<and> shouldThrowError_arg opts m
        \<and> msg = ''url: couldn't get content from '' @ url m @ '': ''
            @ string_of_nat (statusCode m))"
  using assms
  by (cases e)
    (auto simp: handleError_def reject_def resolve_def checkLoaded_def onNetworkError_def
      networkErrorMessage_def split: prod.splits)

text \<open>
  C8. When the URI is not blank, so that a page loader is set up, the selectors handed to
  it are the caller's selector normalised to a list, and each closure variable starts
  true exactly when its feature is not asked for: selectorsResolved iff that list is
  empty, predicateResolved iff no predicate is given, networkResolved iff the effective
  waitNetworkIdle is false; the promise starts pending. From then on a variable becomes
  true by the event of its own watcher and by nothing else.
\<close>

theorem initial_readiness_flags:
  assumes "uri \<noteq> []" and "uri \<noteq> ''about:blank''"
  shows "\<exists>pl s. openAndWait cfg h uri opts = Watch pl s
    \<and> pl_selectors pl =
        (case selector opts of
           None \<Rightarrow> [] | Some (Single x) \<Rightarrow> [x] | Some (Several xs) \<Rightarrow> xs)
    \<and> (selectorsResolved s \<longleftrightarrow> pl_selectors pl = [])
    \<and> (predicateResolved s \<longleftrightarrow> predicate opts = None)
    \<and> pl_waitNetworkIdle pl = waitNetworkIdle_eff cfg opts
    \<and> (networkResolved s \<longleftrightarrow> \<not> waitNetworkIdle_eff cfg opts)
    \<and> promise s = Pending
    \<and> (\<forall>t e. selectorsResolved (handle cfg opts t e) \<longleftrightarrow>
          selectorsResolved t \<or> e = SelectorsExist)
    \<and> (\<forall>t e. predicateResolved (handle cfg opts t e) \<longleftrightarrow>
          predicateResolved t \<or> e = PredicateResolved)
    \<and> (\<forall>t e. networkResolved (handle cfg opts t e) \<longleftrightarrow>
          networkResolved t \<or> e = NetworkResolved)"
proof -
  have sel: "selectors opts =
      (case selector opts of
         None \<Rightarrow> [] | Some (Single x) \<Rightarrow> [x] | Some (Several xs) \<Rightarrow> xs)"
    by (simp add: selectors_def selector_arg_def split: option.splits selector.splits)
  from assms have "openAndWait cfg h uri opts =
      Watch
        \<lparr>pl_selectors = selectors opts, pl_predicate = predicate opts,
         pl_timeout = timeout_arg cfg opts, pl_waitNetworkIdle = waitNetworkIdle_eff cfg opts,
         pl_waitNetworkIdleTimeout = waitNetworkIdleTimeout_arg cfg opts\<rparr>
        \<lparr>selectorsResolved = (length (selectors opts) = 0),
         predicateResolved = (predicate opts = None),
         networkResolved = (\<not> waitNetworkIdle_eff cfg opts), promise = Pending,
         regexps = h\<rparr>"
    by (simp add: openAndWait_def emptyPageUrl_def)
  with sel show ?thesis
    by (simp add: selectorsResolved_handle predicateResolved_handle networkResolved_handle_iff)
qed

theorem initial_readiness_flags_witness:
  "\<exists>pl s. openAndWait chrome_config fresh_regexps ''https://example.com''
       (no_opts\<lparr>selector := Some (Single ''#a''), predicate := Some ()\<rparr>) = Watch pl s
     \<and> pl_selectors pl = [''#a'']
     \<and> \<not> selectorsResolved s \<and> \<not> predicateResolved s \<and> \<not> networkResolved s
     \<and> promise s = Pending"
proof -
  let ?opts = "no_opts\<lparr>selector := Some (Single ''#a''), predicate := Some ()\<rparr>"
  have u: "''https://example.com'' \<noteq> []" and b: "''https://example.com'' \<noteq> ''about:blank''"
    by simp_all
  have eff: "waitNetworkIdle_eff chrome_config ?opts"
    by (simp add: waitNetworkIdle_eff_def waitNetworkIdle_arg_def isChrome_def)
  from initial_readiness_flags [OF u b, of chrome_config fresh_regexps ?opts] eff
  show ?thesis by auto
qed

text \<open>The first event that settles the promise decides the outcome of the whole run.\<close>

lemma first_settlement:
  assumes "promise s = Pending" and "promise (run cfg opts s evs) \<noteq> Pending"
  shows "\<exists>xs e ys. evs = xs @ e # ys \<and> promise (run cfg opts s xs) = Pending
    \<and> promise (handle cfg opts (run cfg opts s xs) e) = promise (run cfg opts s evs)"
  using assms(2)
proof (induction evs rule: rev_induct)
  case Nil
  with assms(1) show ?case by (simp add: run_Nil)
next
  case (snoc z zs)
  show ?case
  proof (cases "promise (run cfg opts s zs) = Pending")
    case True
    then have "zs @ [z] = zs @ z # [] \<and> promise (run cfg opts s zs) = Pending
        \<and> promise (handle cfg opts (run cfg opts s zs) z) = promise (run cfg opts s (zs @ [z]))"
      by (simp add: run_snoc)
    then show ?thesis by blast
  next
    case False
    from snoc.IH [OF False] obtain xs e ys where d: "zs = xs @ e # ys"
      and p: "promise (run cfg opts s xs) = Pending"
      and v: "promise (handle cfg opts (run cfg opts s xs) e) = promise (run cfg opts s zs)"
      by blast
    from False have "promise (run cfg opts s (zs @ [z])) = promise (run cfg opts s zs)"
      by (simp add: run_snoc handle_settled)
    with d p v have "zs @ [z] = xs @ e # (ys @ [z]) \<and> promise (run cfg opts s xs) = Pending
        \<and> promise (handle cfg opts (run cfg opts s xs) e) = promise (run cfg opts s (zs @ [z]))"
      by simp
    then show ?thesis by blast
  qed
qed

lemma settlement_final:
  assumes "promise (handle cfg opts (run cfg opts s xs) e) \<noteq> Pending"
  shows "promise (run cfg opts s (xs @ e # ys)) = promise (handle cfg opts (run cfg opts s xs) e)"
  using assms by (simp add: run_append run_Cons run_settled)

lemma run_outcome_iff:
  assumes "promise s = Pending" and "v \<noteq> Pending"
  shows "promise (run cfg opts s evs) = v \<longleftrightarrow>
    (\<exists>xs e ys. evs = xs @ e # ys \<and> promise (run cfg opts s xs) = Pending
       \<and> promise (handle cfg opts (run cfg opts s xs) e) = v)"
proof
  assume r: "promise (run cfg opts s evs) = v"
  with assms(2) have "promise (run cfg opts s evs) \<noteq> Pending" by simp
  from first_settlement [OF assms(1) this] r
  show "\<exists>xs e ys. evs = xs @ e # ys \<and> promise (run cfg opts s xs) = Pending
      \<and> promise (handle cfg opts (run cfg opts s xs) e) = v"
    by auto
next
  assume "\<exists>xs e ys. evs = xs @ e # ys \<and> promise (run cfg opts s xs) = Pending
      \<and> promise (handle cfg opts (run cfg opts s xs) e) = v"
  then obtain xs e ys where d: "evs = xs @ e # ys"
    and v: "promise (handle cfg opts (run cfg opts s xs) e) = v"
    by blast
  from v assms(2) have "promise (handle cfg opts (run cfg opts s xs) e) \<noteq> Pending" by simp
  from settlement_final [OF this, of ys] d v show "promise (run cfg opts s evs) = v"
    by simp
qed

lemma take_settled:
  assumes "promise (run cfg opts s (take i evs)) \<noteq> Pending" and "i \<le> j"
  shows "promise (run cfg opts s (take j evs)) = promise (run cfg opts s (take i evs))"
proof -
  from assms(2) have "take j evs = take i evs @ take (j - i) (drop i evs)"
    by (metis le_add_diff_inverse take_add)
  with assms(1) show ?thesis
    by (simp add: run_append run_settled)
qed

lemma pending_throughout:
  assumes "promise (run cfg opts s evs) = Pending"
  shows "promise (run cfg opts s (take n evs)) = Pending"
proof (cases "n \<le> length evs")
  case True
  show ?thesis
  proof (rule ccontr)
    assume "promise (run cfg opts s (take n evs)) \<noteq> Pending"
    from take_settled [OF this True] assms this show False by simp
  qed
next
  case False
  with assms show ?thesis by simp
qed

lemma settles_at_one_index:
  assumes "promise s = Pending" and "promise (run cfg opts s evs) \<noteq> Pending"
  shows "\<exists>!n. n < length evs \<and> promise (run cfg opts s (take n evs)) = Pending
    \<and> promise (run cfg opts s (take (Suc n) evs)) \<noteq> Pending"
proof (rule ex_ex1I)
  from first_settlement [OF assms] obtain xs e ys where d: "evs = xs @ e # ys"
    and p: "promise (run cfg opts s xs) = Pending"
    and v: "promise (handle cfg opts (run cfg opts s xs) e) = promise (run cfg opts s evs)"
    by blast
  from d have "take (length xs) evs = xs" and "take (Suc (length xs)) evs = xs @ [e]"
    and "length xs < length evs"
    by simp_all
  with p v assms(2)
  have "length xs < length evs \<and> promise (run cfg opts s (take (length xs) evs)) = Pending
      \<and> promise (run cfg opts s (take (Suc (length xs)) evs)) \<noteq> Pending"
    by (simp add: run_snoc)
  then show "\<exists>n. n < length evs \<and> promise (run cfg opts s (take n evs)) = Pending
      \<and> promise (run cfg opts s (take (Suc n) evs)) \<noteq> Pending"
    by blast
next
  fix n n'
  assume n: "n < length evs \<and> promise (run cfg opts s (take n evs)) = Pending
      \<and> promise (run cfg opts s (take (Suc n) evs)) \<noteq> Pending"
    and n': "n' < length evs \<and> promise (run cfg opts s (take n' evs)) = Pending
      \<and> promise (run cfg opts s (take (Suc n') evs)) \<noteq> Pending"
  have later: False
    if a: "promise (run cfg opts s (take (Suc i) evs)) \<noteq> Pending"
      and b: "promise (run cfg opts s (take j evs)) = Pending" and lt: "i < j" for i j
  proof -
    from lt have "Suc i \<le> j" by simp
    from take_settled [OF a this] a b show False by simp
  qed
  show "n = n'"
  proof (rule ccontr)
    assume "n \<noteq> n'"
    then consider "n < n'" | "n' < n" by linarith
    then show False
    proof cases
      case 1
      with n n' later [of n n'] show False by blast
    next
      case 2
      with n n' later [of n' n] show False by blast
    qed
  qed
qed

text \<open>
  C9, as the claim states it, fails: not every sequence of watcher events settles the
  outcome. While the selector "#a" has not been found, the network going idle, a failed
  script that the classification lets pass and the completion of the load leave the
  promise pending: it has settled zero times, not once.
\<close>

theorem settles_exactly_once_counterexample:
  "outcome chrome_config fresh_regexps ''https://example.com''
     (no_opts\<lparr>selector := Some (Single ''#a'')\<rparr>) NavDone
     [NetworkResolved, NetworkError script_match, LoadDone] = Pending"
  by (simp add: outcome_def openAndWait_def emptyPageUrl_def selectors_def selector_arg_def
      waitNetworkIdle_eff_def waitNetworkIdle_arg_def isChrome_def run_Cons run_Nil
      checkLoaded_def resolve_def onNetworkError_def failOnNetworkError_arg_def
      isMatchPatterns_def ignoreNetworkErrorsPatterns_arg_def shouldThrowError_arg_def
      shouldThrowErrorDefault_def is_favicon_def is_image_def is_stylesheet_def is_font_def
      truthy_def endsWith_def suffix_to_prefix)

text \<open>
  C9, amended. For every sequence of watcher events delivered to a pending promise, the
  outcome settles at most once: exactly once, at one position of the sequence, when the
  sequence contains a terminal event, and not at all when it contains none. Success
  occurs precisely when, with the promise still pending, a resolution event or the
  completion of the load arrives after which all three closure variables are true.
  Failure occurs precisely when, with the promise still pending, an error of the page
  load, the selectors or the predicate arrives (the message is "url: " and the error's
  message), or a network error that failOnNetworkError, the patterns and the
  classification let through (the message names the url and the status code). Whichever
  comes first is final: every later event leaves the outcome as it is. The run handles
  the events one by one, in order.
\<close>

theorem settles_once:
  assumes "promise s = Pending"
  shows "(promise (run cfg opts s evs) = Resolved \<longleftrightarrow>
        (\<exists>xs e ys. evs = xs @ e # ys \<and> promise (run cfg opts s xs) = Pending
           \<and> e \<in> {SelectorsExist, PredicateResolved, NetworkResolved, LoadDone}
           \<and> selectorsResolved (run cfg opts s (xs @ [e]))
           \<and> predicateResolved (run cfg opts s (xs @ [e]))
           \<and> networkResolved (run cfg opts s (xs @ [e]))))
    \<and> (promise (run cfg opts s evs) = Rejected msg \<longleftrightarrow>
        (\<exists>xs e ys. evs = xs @ e # ys \<and> promise (run cfg opts s xs) = Pending
           \<and> ((\<exists>err. e \<in> {PageLoadError err, SelectorsError err, PredicateError err}
                  \<and> msg = ''url: '' @ err)
              \<or> (\<exists>m. e = NetworkError m \<and> failOnNetworkError_arg cfg opts
                  \<and> \<not> fst (isMatchPatterns (regexps (run cfg opts s xs))
                             (ignoreNetworkErrorsPatterns_arg cfg opts) (url m))
                  \<and> shouldThrowError_arg opts m
                  \<and> msg = ''url: couldn't get content from '' @ url m @ '': ''
                      @ string_of_nat (statusCode m)))))
    \<and> (promise (run cfg opts s evs) \<noteq> Pending \<longrightarrow>
        (\<exists>!n. n < length evs \<and> promise (run cfg opts s (take n evs)) = Pending
           \<and> promise (run cfg opts s (take (Suc n) evs)) \<noteq> Pending))
    \<and> (promise (run cfg opts s evs) = Pending \<longrightarrow>
        (\<forall>n. promise (run cfg opts s (take n evs)) = Pending))
    \<and> (\<forall>xs ys. promise (run cfg opts s xs) \<noteq> Pending \<longrightarrow>
          promise (run cfg opts s (xs @ ys)) = promise (run cfg opts s xs))
    \<and> run cfg opts s [] = s
    \<and> (\<forall>xs e. run cfg opts s (xs @ [e]) = handle cfg opts (run cfg opts s xs) e)"
proof -
  have success: "promise (run cfg opts s evs) = Resolved \<longleftrightarrow>
      (\<exists>xs e ys. evs = xs @ e # ys \<and> promise (run cfg opts s xs) = Pending
         \<and> e \<in> {SelectorsExist, PredicateResolved, NetworkResolved, LoadDone}
         \<and> selectorsResolved (run cfg opts s (xs @ [e]))
         \<and> predicateResolved (run cfg opts s (xs @ [e]))
         \<and> networkResolved (run cfg opts s (xs @ [e])))"
  proof -
    have step: "promise (handle cfg opts (run cfg opts s xs) e) = Resolved \<longleftrightarrow>
        e \<in> {SelectorsExist, PredicateResolved, NetworkResolved, LoadDone}
        \<and> selectorsResolved (run cfg opts s (xs @ [e]))
        \<and> predicateResolved (run cfg opts s (xs @ [e]))
        \<and> networkResolved (run cfg opts s (xs @ [e]))"
      if "promise (run cfg opts s xs) = Pending" for xs e
      using handle_Resolved_iff [OF that, of cfg opts e] by (simp add: run_snoc)
    have "promise (run cfg opts s evs) = Resolved \<longleftrightarrow>
        (\<exists>xs e ys. evs = xs @ e # ys \<and> promise (run cfg opts s xs) = Pending
           \<and> promise (handle cfg opts (run cfg opts s xs) e) = Resolved)"
      by (rule run_outcome_iff [OF assms]) simp
    also have "\<dots> \<longleftrightarrow>
        (\<exists>xs e ys. evs = xs @ e # ys \<and> promise (run cfg opts s xs) = Pending
           \<and> e \<in> {SelectorsExist, PredicateResolved, NetworkResolved, LoadDone}
           \<and> selectorsResolved (run cfg opts s (xs @ [e]))
           \<and> predicateResolved (run cfg opts s (xs @ [e]))
           \<and> networkResolved (run cfg opts s (xs @ [e])))"
      using step by (simp cong: conj_cong)
    finally show ?thesis .
  qed
  have failure: "promise (run cfg opts s evs) = Rejected msg \<longleftrightarrow>
      (\<exists>xs e ys. evs = xs @ e # ys \<and> promise (run cfg opts s xs) = Pending
         \<and> ((\<exists>err. e \<in> {PageLoadError err, SelectorsError err, PredicateError err}
                \<and> msg = ''url: '' @ err)
            \<or> (\<exists>m. e = NetworkError m \<and> failOnNetworkError_arg cfg opts
                \<and> \<not> fst (isMatchPatterns (regexps (run cfg opts s xs))
                           (ignoreNetworkErrorsPatterns_arg cfg opts) (url m))
                \<and> shouldThrowError_arg opts m
                \<and> msg = ''url: couldn't get content from '' @ url m @ '': ''
                    @ string_of_nat (statusCode m))))"
  proof -
    have step: "promise (handle cfg opts (run cfg opts s xs) e) = Rejected msg \<longleftrightarrow>
        (\<exists>err. e \<in> {PageLoadError err, SelectorsError err, PredicateError err}
            \<and> msg = ''url: '' @ err)
        \<or> (\<exists>m. e = NetworkError m \<and> failOnNetworkError_arg cfg opts
            \<and> \<not> fst (isMatchPatterns (regexps (run cfg opts s xs))
                       (ignoreNetworkErrorsPatterns_arg cfg opts) (url m))
            \<and> shouldThrowError_arg opts m
            \<and> msg = ''url: couldn't get content from '' @ url m @ '': ''
                @ string_of_nat (statusCode m))"
      if "promise (run cfg opts s xs) = Pending" for xs e
      by (rule handle_Rejected_iff [OF that])
    have "promise (run cfg opts s evs) = Rejected msg \<longleftrightarrow>
        (\<exists>xs e ys. evs = xs @ e # ys \<and> promise (run cfg opts s xs) = Pending
           \<and> promise (handle cfg opts (run cfg opts s xs) e) = Rejected msg)"
      by (rule run_outcome_iff [OF assms]) simp
    also have "\<dots> \<longleftrightarrow>
        (\<exists>xs e ys. evs = xs @ e # ys \<and> promise (run cfg opts s xs) = Pending
           \<and> ((\<exists>err. e \<in> {PageLoadError err, SelectorsError err, PredicateError err}
                  \<and> msg = ''url: '' @ err)
              \<or> (\<exists>m. e = NetworkError m \<and> failOnNetworkError_arg cfg opts
                  \<and> \<not> fst (isMatchPatterns (regexps (run cfg opts s xs))
                             (ignoreNetworkErrorsPatterns_arg cfg opts) (url m))
                  \<and> shouldThrowError_arg opts m
                  \<and> msg = ''url: couldn't get content from '' @ url m @ '': ''
                      @ string_of_nat (statusCode m))))"
      using step by (simp cong: conj_cong)
    finally show ?thesis .
  qed
  have once: "promise (run cfg opts s evs) \<noteq> Pending \<longrightarrow>
      (\<exists>!n. n < length evs \<and> promise (run cfg opts s (take n evs)) = Pending
         \<and> promise (run cfg opts s (take (Suc n) evs)) \<noteq> Pending)"
    using settles_at_one_index [OF assms] by blast
  have never: "promise (run cfg opts s evs) = Pending \<longrightarrow>
      (\<forall>n. promise (run cfg opts s (take n evs)) = Pending)"
    using pending_throughout by blast
  have final: "\<forall>xs ys. promise (run cfg opts s xs) \<noteq> Pending \<longrightarrow>
      promise (run cfg opts s (xs @ ys)) = promise (run cfg opts s xs)"
    by (simp add: run_append run_settled)
  have start: "run cfg opts s [] = s"
    by (simp add: run_Nil)
  have link: "\<forall>xs e. run cfg opts s (xs @ [e]) = handle cfg opts (run cfg opts s xs) e"
    by (simp add: run_snoc)
  show ?thesis
    by (intro conjI) (rule success failure once never final start link)+
qed

theorem settles_once_witness:
  "promise waiting_state = Pending
   \<and> promise (run chrome_config no_opts waiting_state
        [NetworkError script_match, SelectorsExist, PredicateError ''boom'', LoadDone])
     = Resolved
   \<and> promise (run chrome_config no_opts waiting_state [PredicateError ''boom'', SelectorsExist])
     = Rejected ''url: boom''
   \<and> promise (run chrome_config no_opts waiting_state [NetworkError script_match, LoadDone])
     = Pending"
proof -
  have p: "promise waiting_state = Pending" by simp
  have script: "handle chrome_config no_opts waiting_state (NetworkError script_match)
      = waiting_state"
    by (simp add: onNetworkError_def failOnNetworkError_arg_def isMatchPatterns_def
        ignoreNetworkErrorsPatterns_arg_def shouldThrowError_arg_def shouldThrowErrorDefault_def
        is_favicon_def is_font_def is_image_def is_stylesheet_def truthy_def endsWith_def
        suffix_to_prefix)
  then have pre: "promise (run chrome_config no_opts waiting_state [NetworkError script_match])
      = Pending"
    by (simp add: run_Cons run_Nil)
  from script
  have flags: "selectorsResolved (run chrome_config no_opts waiting_state
        ([NetworkError script_match] @ [SelectorsExist]))
      \<and> predicateResolved (run chrome_config no_opts waiting_state
        ([NetworkError script_match] @ [SelectorsExist]))
      \<and> networkResolved (run chrome_config no_opts waiting_state
        ([NetworkError script_match] @ [SelectorsExist]))"
    by (simp add: run_Cons run_Nil checkLoaded_def resolve_def)
  have "[NetworkError script_match, SelectorsExist, PredicateError ''boom'', LoadDone]
      = [NetworkError script_match] @ SelectorsExist # [PredicateError ''boom'', LoadDone]
    \<and> promise (run chrome_config no_opts waiting_state [NetworkError script_match]) = Pending
    \<and> SelectorsExist \<in> {SelectorsExist, PredicateResolved, NetworkResolved, LoadDone}"
    using pre by simp
  with flags
  have ex1: "\<exists>xs e ys.
      [NetworkError script_match, SelectorsExist, PredicateError ''boom'', LoadDone]
        = xs @ e # ys
      \<and> promise (run chrome_config no_opts waiting_state xs) = Pending
      \<and> e \<in> {SelectorsExist, PredicateResolved, NetworkResolved, LoadDone}
      \<and> selectorsResolved (run chrome_config no_opts waiting_state (xs @ [e]))
      \<and> predicateResolved (run chrome_config no_opts waiting_state (xs @ [e]))
      \<and> networkResolved (run chrome_config no_opts waiting_state (xs @ [e]))"
    by blast
  have one: "promise (run chrome_config no_opts waiting_state
      [NetworkError script_match, SelectorsExist, PredicateError ''boom'', LoadDone]) = Resolved"
    using settles_once [OF p, of chrome_config no_opts
        "[NetworkError script_match, SelectorsExist, PredicateError ''boom'', LoadDone]" "[]",
        THEN conjunct1] ex1
    by (rule iffD2)
  have "[PredicateError ''boom'', SelectorsExist] = [] @ PredicateError ''boom'' # [SelectorsExist]
    \<and> promise (run chrome_config no_opts waiting_state []) = Pending
    \<and> PredicateError ''boom''
        \<in> {PageLoadError ''boom'', SelectorsError ''boom'', PredicateError ''boom''}
    \<and> ''url: boom'' = ''url: '' @ ''boom''"
    by (simp add: run_Nil)
  then have ex2: "\<exists>xs e ys. [PredicateError ''boom'', SelectorsExist] = xs @ e # ys
      \<and> promise (run chrome_config no_opts waiting_state xs) = Pending
      \<and> ((\<exists>err. e \<in> {PageLoadError err, SelectorsError err, PredicateError err}
              \<and> ''url: boom'' = ''url: '' @ err)
          \<or> (\<exists>m. e = NetworkError m \<and> failOnNetworkError_arg chrome_config no_opts
              \<and> \<not> fst (isMatchPatterns (regexps (run chrome_config no_opts waiting_state xs))
                         (ignoreNetworkErrorsPatterns_arg chrome_config no_opts) (url m))
              \<and> shouldThrowError_arg no_opts m
              \<and> ''url: boom'' = ''url: couldn't get content from '' @ url m @ '': ''
                  @ string_of_nat (statusCode m)))"
    by blast
  have two: "promise (run chrome_config no_opts waiting_state
      [PredicateError ''boom'', SelectorsExist]) = Rejected ''url: boom''"
    using settles_once [OF p, of chrome_config no_opts
        "[PredicateError ''boom'', SelectorsExist]" "''url: boom''",
        THEN conjunct2, THEN conjunct1] ex2
    by (rule iffD2)
  from script have three: "promise (run chrome_config no_opts waiting_state
      [NetworkError script_match, LoadDone]) = Pending"
    by (simp add: run_Cons run_Nil checkLoaded_def)
  from p one two three show ?thesis by simp
qed

end
